theory Spec2Isabelle
  imports Complex_Main "HOL-Library.Char_ord" "HOL-Library.List_Lexorder"
begin

section \<open>Wall-clock time\<close>

text \<open>
  A reading of \<^verbatim>\<open>datetime.datetime.now()\<close>: the calendar fields of a naive Python
  datetime. Python keeps them within \<open>valid_datetime\<close>.
\<close>

record datetime =
  year :: int
  month :: int
  day :: int
  hour :: int
  minute :: int
  second :: int
  microsecond :: int

definition is_leap :: "int \<Rightarrow> bool" where
  "is_leap y = (y mod 4 = 0 \<and> (y mod 100 \<noteq> 0 \<or> y mod 400 = 0))"



text \<open>
  Python compares two datetimes field by field, from the year down to the microsecond;
  this is the chronological order of the readings.
\<close>

definition datetime_key :: "datetime \<Rightarrow> int list" where
  "datetime_key t = [year t, month t, day t, hour t, minute t, second t, microsecond t]"

definition datetime_lt :: "datetime \<Rightarrow> datetime \<Rightarrow> bool" where
  "datetime_lt a b = (datetime_key a < datetime_key b)"

text \<open>
  The difference of two datetimes is a timedelta, normalised as Python's constructor does:
  \<open>0 \<le> seconds < 86400\<close> and \<open>0 \<le> microseconds < 1000000\<close>, the days carrying the sign.
\<close>

record timedelta =
  days :: int
  seconds :: int
  microseconds :: int

definition days_before_year :: "int \<Rightarrow> int" where
  "days_before_year y = (let p = y - 1 in p * 365 + p div 4 - p div 100 + p div 400)"

definition days_before_month :: "int \<Rightarrow> int \<Rightarrow> int" where
  "days_before_month y m =
     [0, 0, 31, 59, 90, 120, 151, 181, 212, 243, 273, 304, 334] ! nat m
       + (if m > 2 \<and> is_leap y then 1 else 0)"

definition toordinal :: "datetime \<Rightarrow> int" where
  "toordinal t = days_before_year (year t) + days_before_month (year t) (month t) + day t"

definition mk_timedelta :: "int \<Rightarrow> int \<Rightarrow> int \<Rightarrow> timedelta" where
  "mk_timedelta d s us =
     (let s1 = s + us div 1000000
      in \<lparr> days = d + s1 div 86400, seconds = s1 mod 86400, microseconds = us mod 1000000 \<rparr>)"

definition datetime_sub :: "datetime \<Rightarrow> datetime \<Rightarrow> timedelta" where
  "datetime_sub a b =
     mk_timedelta (toordinal a - toordinal b)
       ((second a + minute a * 60 + hour a * 3600) - (second b + minute b * 60 + hour b * 3600))
       (microsecond a - microsecond b)"

text \<open>The whole length of a timedelta in microseconds (what \<^verbatim>\<open>total_seconds()\<close> measures).\<close>

definition total_microseconds :: "timedelta \<Rightarrow> int" where
  "total_microseconds d = (days d * 86400 + seconds d) * 1000000 + microseconds d"

text \<open>\<^verbatim>\<open>datetime.datetime(datetime.MINYEAR, 1, 1)\<close>\<close>

definition MINYEAR_start :: datetime where
  "MINYEAR_start = \<lparr> year = 1, month = 1, day = 1, hour = 0, minute = 0, second = 0,
                     microsecond = 0 \<rparr>"

subsection \<open>strftime\<close>

text \<open>
  The directives the recorders use, in the C locale and for fields within
  \<open>valid_datetime\<close> with a four-digit year: \<^verbatim>\<open>%Y\<close> is the year in four digits, \<^verbatim>\<open>%m %d %H %M %S\<close>
  are two digits, \<^verbatim>\<open>%I\<close> is the hour on the 12-hour clock (01 to 12) and \<^verbatim>\<open>%p\<close> is AM or PM.
\<close>

definition digit :: "int \<Rightarrow> char" where
  "digit n = ''0123456789'' ! nat n"

definition pad2 :: "int \<Rightarrow> string" where
  "pad2 n = [digit (n div 10), digit (n mod 10)]"

definition pad4 :: "int \<Rightarrow> string" where
  "pad4 n = [digit (n div 1000), digit (n div 100 mod 10), digit (n div 10 mod 10), digit (n mod 10)]"

definition fmt_p :: "datetime \<Rightarrow> string" where
  "fmt_p t = (if hour t < 12 then ''AM'' else ''PM'')"

definition fmt_I :: "datetime \<Rightarrow> string" where
  "fmt_I t = pad2 (if hour t mod 12 = 0 then 12 else hour t mod 12)"

text \<open>\<^verbatim>\<open>strftime('%Y-%m-%d %H:%M:%S')\<close>, the text stamped into the video.\<close>

definition annotation_text :: "datetime \<Rightarrow> string" where
  "annotation_text t =
     pad4 (year t) @ ''-'' @ pad2 (month t) @ ''-'' @ pad2 (day t) @ '' '' @
     pad2 (hour t) @ '':'' @ pad2 (minute t) @ '':'' @ pad2 (second t)"

text \<open>
  \<^verbatim>\<open>strftime('%Y-%m-%d_%p_%I-%M-%S.h264')\<close>, the file name of the motion-gated recorder
  (MotionDetectionSurveillance/video\_recorder.py).
\<close>

definition fn_motion :: "datetime \<Rightarrow> string" where
  "fn_motion t =
     pad4 (year t) @ ''-'' @ pad2 (month t) @ ''-'' @ pad2 (day t) @ ''_'' @ fmt_p t @ ''_'' @
     fmt_I t @ ''-'' @ pad2 (minute t) @ ''-'' @ pad2 (second t) @ ''.h264''"

text \<open>
  \<^verbatim>\<open>strftime('%Y-%m-%d_%p_%I:%M:%S.h264')\<close>, the file name of the fixed-block recorders
  (video\_surveillance.py and cameraRecordVideo.py).
\<close>

definition fn_block :: "datetime \<Rightarrow> string" where
  "fn_block t =
     pad4 (year t) @ ''-'' @ pad2 (month t) @ ''-'' @ pad2 (day t) @ ''_'' @ fmt_p t @ ''_'' @
     fmt_I t @ '':'' @ pad2 (minute t) @ '':'' @ pad2 (second t) @ ''.h264''"

section \<open>Exceptions and results\<close>

text \<open>
  A call either returns or raises. The state is returned in both cases, because what a
  method did before it raised stays done. \<open>Inl e\<close> is the exception \<open>e\<close> leaving the call,
  \<open>Inr ()\<close> a normal return.
\<close>

datatype exn = IndexError | AttributeError | ValueError string | SystemExit int

type_synonym outcome = "exn + unit"

section \<open>Free space and eviction\<close>

text \<open>
  The directory the recorder writes to, as \<^verbatim>\<open>os.statvfs\<close>, \<^verbatim>\<open>os.listdir\<close> and
  \<^verbatim>\<open>os.remove\<close> see it: the block size and the number of free blocks of its file system, and
  its entries, each a file name with the number of blocks the file occupies. Removing a file
  returns its blocks to the free count. \<open>removed\<close> keeps the names handed to \<^verbatim>\<open>os.remove\<close>,
  oldest call first. The entries are regular files, no other process writes to the file
  system, and the directory's path ends with the separator, as \<^verbatim>\<open>VIDEOS_DIRECTORY\<close> does,
  so that \<^verbatim>\<open>dir + oldest\<close> names the listed file.
\<close>

record directory =
  f_frsize :: nat
  f_bfree :: nat
  entries :: "(string \<times> nat) list"
  removed :: "string list"

definition FREE_SPACE_GB :: rat where
  "FREE_SPACE_GB = 10"

text \<open>
  \<^verbatim>\<open>space_bytes / (1024 ** 3)\<close> is Python's true division; the quotient is kept exact here.
  The only use of the result is the comparison with \<^verbatim>\<open>FREE_SPACE_GB\<close>, which the rounding
  to a float does not change.
\<close>

definition get_free_space_GB :: "directory \<Rightarrow> rat" where
  "get_free_space_GB d = of_nat (f_frsize d * f_bfree d) / (1024 ^ 3)"

definition listdir :: "directory \<Rightarrow> string list" where
  "listdir d = map fst (entries d)"

definition os_remove :: "directory \<Rightarrow> string \<Rightarrow> directory" where
  "os_remove d name =
     d\<lparr> f_bfree := f_bfree d + sum_list (map snd (filter (\<lambda>e. fst e = name) (entries d))),
        entries := filter (\<lambda>e. fst e \<noteq> name) (entries d),
        removed := removed d @ [name] \<rparr>"

text \<open>
  \<^verbatim>\<open>ensure_space\<close>, the same in the three programs. \<^verbatim>\<open>sorted\<close> orders the names as Python
  orders strings, character by character; \<^verbatim>\<open>files[0]\<close> raises IndexError on an empty listing.
\<close>

function ensure_space :: "directory \<Rightarrow> outcome \<times> directory" where
  "ensure_space d =
     (if get_free_space_GB d < FREE_SPACE_GB then
        (case sort (listdir d) of
           [] \<Rightarrow> (Inl IndexError, d)
         | oldest # rest \<Rightarrow> ensure_space (os_remove d oldest))
      else (Inr (), d))"
  by pat_completeness auto

termination
proof (relation "measure (\<lambda>d. length (entries d))")
  show "wf (measure (\<lambda>d. length (entries d)))" by simp
next
  fix d :: directory and oldest :: string and rest :: "string list"
  assume "sort (listdir d) = oldest # rest"
  then have "oldest \<in> set (sort (listdir d))" by simp
  then have "oldest \<in> set (listdir d)" by simp
  then obtain e where e: "e \<in> set (entries d)" "fst e = oldest"
    by (auto simp: listdir_def)
  then have "length (filter (\<lambda>e. fst e \<noteq> oldest) (entries d)) < length (entries d)"
    by (intro length_filter_less[of e]) auto
  then show "(os_remove d oldest, d) \<in> measure (\<lambda>d. length (entries d))"
    by (simp add: os_remove_def)
qed

declare ensure_space.simps [simp del]

section \<open>The recorders\<close>

text \<open>
  The camera, the Rainbow Hat (display and buzzer) and the timers of \<^verbatim>\<open>threading\<close> are
  outside the repository. A call on one of them is recorded, in program order, in the list
  \<open>calls\<close> of the recorder's state, and is taken to return. Of the writes to standard output,
  those of the button handlers are recorded; the diagnostic prints of the recorder's own
  methods are left out. What the camera writes into the directory is not tracked.
\<close>

datatype callback = UpdateTimeAnnotation | ContinueRecording

datatype call =
    AnnotateBackground string
  | AnnotateText string
  | StartRecording string
  | StopRecording
  | WaitRecording int
  | StartPreview
  | StopPreview
  | TimerStart int callback
  | TimerCancel callback
  | DisplayPrintStr string
  | DisplayShow
  | DisplayClear
  | BuzzerMidiNote int
  | PrintChannel int
  | Print string

text \<open>
  A \<^verbatim>\<open>threading.Timer\<close> object: its interval in seconds, the function it will call, and
  whether \<^verbatim>\<open>cancel()\<close> has been called on it.
\<close>

datatype timer = Timer (interval: int) (target: callback) (cancelled: bool)

definition cancel :: "timer \<Rightarrow> timer" where
  "cancel t = Timer (interval t) (target t) True"

definition ANNOTATION_TIMER_INTERVAL_SEC :: int where
  "ANNOTATION_TIMER_INTERVAL_SEC = 1"

definition VIDEOS_DIRECTORY :: string where
  "VIDEOS_DIRECTORY = ''/media/pi/My Passport/SurveillanceVideos/''"

text \<open>
  The state the three programs have in common: the class attributes (module globals in
  cameraRecordVideo.py) \<open>recording\<close> and \<open>annotation_timer\<close>, the directory on disk and the
  calls made so far. \<open>camera\<close> is set before any method runs.
\<close>

record session =
  recording :: bool
  annotation_timer :: "timer option"
  disk :: directory
  calls :: "call list"

text \<open>
  \<^verbatim>\<open>update_time_annotation\<close>, the same in the three programs; \<open>now\<close> is the clock reading
  it formats.
\<close>

definition update_time_annotation ::
    "datetime \<Rightarrow> 'a session_scheme \<Rightarrow> outcome \<times> 'a session_scheme" where
  "update_time_annotation now r =
     (if recording r then
        (Inr (), r\<lparr> annotation_timer :=
                      Some (Timer ANNOTATION_TIMER_INTERVAL_SEC UpdateTimeAnnotation False),
                    calls := calls r @
                      [AnnotateText (annotation_text now), WaitRecording 0,
                       TimerStart ANNOTATION_TIMER_INTERVAL_SEC UpdateTimeAnnotation] \<rparr>)
      else (Inr (), r))"

subsection \<open>The motion-gated recorder (MotionDetectionSurveillance/video\_recorder.py)\<close>

record video_recorder = session +
  videos_dir :: string
  rh_found :: bool

definition READY :: string where
  "READY = ''IDLE''"

definition RECORDING_str :: string where
  "RECORDING_str = ''REC ''"

text \<open>
  \<^verbatim>\<open>VideoRecorder.start\<close>; \<open>now\<close> is the reading that names the file, \<open>now2\<close> the later one
  that is stamped into the first frames.
\<close>

definition start :: "datetime \<Rightarrow> datetime \<Rightarrow> video_recorder \<Rightarrow> outcome \<times> video_recorder" where
  "start now now2 r =
     (case ensure_space (disk r) of
        (Inl e, d) \<Rightarrow> (Inl e, r\<lparr> disk := d \<rparr>)
      | (Inr u, d) \<Rightarrow>
          (Inr (), r\<lparr> recording := True,
                      annotation_timer :=
                        Some (Timer ANNOTATION_TIMER_INTERVAL_SEC UpdateTimeAnnotation False),
                      disk := d,
                      calls := calls r @
                        [AnnotateBackground ''black'', AnnotateText (annotation_text now2),
                         StartRecording (videos_dir r @ fn_motion now),
                         TimerStart ANNOTATION_TIMER_INTERVAL_SEC UpdateTimeAnnotation] @
                        (if rh_found r then [DisplayPrintStr RECORDING_str, DisplayShow]
                         else []) \<rparr>))"

text \<open>
  \<^verbatim>\<open>VideoRecorder.stop\<close>. \<^verbatim>\<open>cls.annotation_timer.cancel()\<close> raises AttributeError while the
  attribute is still None.
\<close>

definition stop :: "video_recorder \<Rightarrow> outcome \<times> video_recorder" where
  "stop r =
     (let r1 = r\<lparr> recording := False, calls := calls r @ [StopRecording] \<rparr>
      in case annotation_timer r1 of
           None \<Rightarrow> (Inl AttributeError, r1)
         | Some t \<Rightarrow>
             (Inr (), r1\<lparr> annotation_timer := Some (cancel t),
                          calls := calls r1 @ [TimerCancel UpdateTimeAnnotation] @
                            (if rh_found r1 then [DisplayPrintStr READY, DisplayShow]
                             else []) \<rparr>))"

definition quit :: "video_recorder \<Rightarrow> video_recorder" where
  "quit r = (if rh_found r then r\<lparr> calls := calls r @ [DisplayClear, DisplayShow] \<rparr> else r)"

definition beep :: "int \<Rightarrow> video_recorder \<Rightarrow> video_recorder" where
  "beep v r = (if rh_found r then r\<lparr> calls := calls r @ [BuzzerMidiNote (60 + v)] \<rparr> else r)"

definition say :: "call \<Rightarrow> 'a session_scheme \<Rightarrow> 'a session_scheme" where
  "say c r = r\<lparr> calls := calls r @ [c] \<rparr>"

text \<open>
  \<^verbatim>\<open>touch_a\<close> of video\_recorder.py, bound to the press event when the Rainbow Hat is
  present. \<^verbatim>\<open>sys.exit(0)\<close> raises SystemExit.
\<close>

definition touch_a :: "int \<Rightarrow> video_recorder \<Rightarrow> outcome \<times> video_recorder" where
  "touch_a channel r0 =
     (let r = say (PrintChannel channel) r0 in
      if channel = 2 then
        (let r1 = beep (channel * 5) r in
         case (if recording r1 then stop r1 else (Inr (), r1)) of
           (Inl e, r2) \<Rightarrow> (Inl e, r2)
         | (Inr u, r2) \<Rightarrow> (Inl (SystemExit 0), say (Print ''Exiting'') (quit r2)))
      else if channel > 2 then
        (let r1 = say (Print ''Unexpected button touched!  How did that happen?!'') r in
         case (if recording r1 then stop r1 else (Inr (), r1)) of
           (Inl e, r2) \<Rightarrow> (Inl e, r2)
         | (Inr u, r2) \<Rightarrow>
             (Inl (ValueError ''Bad value for channel.  No such button!''),
              say (Print ''Exiting'') (quit r2)))
      else (Inr (), r))"

subsection \<open>The fixed-block recorders (video\_surveillance.py and cameraRecordVideo.py)\<close>

text \<open>
  video\_surveillance.py keeps the state in the attributes of the class \<^verbatim>\<open>VideoRecorder\<close>,
  cameraRecordVideo.py in module globals; \<^verbatim>\<open>start\<close>, \<^verbatim>\<open>record\<close> and
  \<^verbatim>\<open>continue_recording\<close> are the same in both and are modelled once.
\<close>

record block_recorder = session +
  duration :: int
  recording_timer :: "timer option"

definition start_block ::
    "datetime \<Rightarrow> datetime \<Rightarrow> block_recorder \<Rightarrow> outcome \<times> block_recorder" where
  "start_block now now2 b =
     (case ensure_space (disk b) of
        (Inl e, d) \<Rightarrow> (Inl e, b\<lparr> disk := d \<rparr>)
      | (Inr u, d) \<Rightarrow>
          (let duration0 = 60 - second now;
               duration1 = (if duration0 = 0 then 60 else duration0);
               duration2 = duration1 + (59 - minute now) * 60
           in (Inr (), b\<lparr> recording := True,
                          annotation_timer :=
                            Some (Timer ANNOTATION_TIMER_INTERVAL_SEC UpdateTimeAnnotation False),
                          disk := d,
                          calls := calls b @
                            [StartPreview, AnnotateBackground ''black'',
                             AnnotateText (annotation_text now2),
                             StartRecording (VIDEOS_DIRECTORY @ fn_block now),
                             TimerStart ANNOTATION_TIMER_INTERVAL_SEC UpdateTimeAnnotation,
                             DisplayPrintStr ''REC'', DisplayShow],
                          duration := duration2 \<rparr>)))"

text \<open>\<^verbatim>\<open>record\<close>: start, then arm the timer that ends the block.\<close>

definition record_block ::
    "datetime \<Rightarrow> datetime \<Rightarrow> block_recorder \<Rightarrow> outcome \<times> block_recorder" where
  "record_block now now2 b =
     (case start_block now now2 b of
        (Inl e, b1) \<Rightarrow> (Inl e, b1)
      | (Inr u, b1) \<Rightarrow>
          (Inr (), b1\<lparr> calls := calls b1 @ [TimerStart (duration b1) ContinueRecording],
                       recording_timer := Some (Timer (duration b1) ContinueRecording False) \<rparr>))"


text \<open>
  The timers are cancelled one after the other; each \<^verbatim>\<open>.cancel()\<close> raises AttributeError
  on None.
\<close>

definition cancel_timers :: "block_recorder \<Rightarrow> outcome \<times> block_recorder" where
  "cancel_timers b =
     (case annotation_timer b of
        None \<Rightarrow> (Inl AttributeError, b)
      | Some t \<Rightarrow>
          (let b1 = b\<lparr> annotation_timer := Some (cancel t),
                       calls := calls b @ [TimerCancel UpdateTimeAnnotation] \<rparr>
           in case recording_timer b1 of
                None \<Rightarrow> (Inl AttributeError, b1)
              | Some t2 \<Rightarrow>
                  (Inr (), b1\<lparr> calls := calls b1 @ [TimerCancel ContinueRecording],
                               recording_timer := Some (cancel t2) \<rparr>)))"

text \<open>\<^verbatim>\<open>VideoRecorder.stop\<close> of video\_surveillance.py.\<close>

definition stop_block :: "block_recorder \<Rightarrow> outcome \<times> block_recorder" where
  "stop_block b =
     cancel_timers (b\<lparr> recording := False,
                       calls := calls b @
                         [StopRecording, StopPreview, DisplayPrintStr ''RDY'', DisplayShow] \<rparr>)"

text \<open>\<^verbatim>\<open>stop\<close> of cameraRecordVideo.py, which leaves the flag to its caller.\<close>

definition stop_crv :: "block_recorder \<Rightarrow> outcome \<times> block_recorder" where
  "stop_crv b =
     cancel_timers (b\<lparr> calls := calls b @
                         [StopRecording, StopPreview, DisplayPrintStr ''RDY'', DisplayShow] \<rparr>)"

definition quit_block :: "block_recorder \<Rightarrow> block_recorder" where
  "quit_block b = b\<lparr> calls := calls b @ [DisplayClear, DisplayShow] \<rparr>"

definition beep_block :: "int \<Rightarrow> block_recorder \<Rightarrow> block_recorder" where
  "beep_block v b = b\<lparr> calls := calls b @ [BuzzerMidiNote (60 + v)] \<rparr>"

text \<open>
  \<^verbatim>\<open>touch_a\<close> of video\_surveillance.py. The four tests on the channel exclude one another,
  so the sequence of \<^verbatim>\<open>if\<close> statements is a chain.
\<close>

definition touch_a_block ::
    "datetime \<Rightarrow> datetime \<Rightarrow> int \<Rightarrow> block_recorder \<Rightarrow> outcome \<times> block_recorder" where
  "touch_a_block now now2 channel b0 =
     (let b = beep_block (channel * 5) (say (PrintChannel channel) b0) in
      if channel = 0 then record_block now now2 b
      else if channel = 1 then (if recording b then stop_block b else (Inr (), b))
      else if channel = 2 then
        (case (if recording b then stop_block b else (Inr (), b)) of
           (Inl e, b2) \<Rightarrow> (Inl e, b2)
         | (Inr u, b2) \<Rightarrow> (Inl (SystemExit 0), say (Print ''Exiting'') (quit_block b2)))
      else if channel > 2 then
        (let b1 = say (Print ''Unexpected button touched!  How did that happen?!'') b in
         case (if recording b1 then stop_block b1 else (Inr (), b1)) of
           (Inl e, b2) \<Rightarrow> (Inl e, b2)
         | (Inr u, b2) \<Rightarrow> (Inl (SystemExit 0), say (Print ''Exiting'') (quit_block b2)))
      else (Inr (), b))"

text \<open>
  \<^verbatim>\<open>touch_a\<close> of cameraRecordVideo.py. For a channel above 2 the display is cleared inside
  the \<^verbatim>\<open>if recording:\<close> block.
\<close>

definition touch_a_crv ::
    "datetime \<Rightarrow> datetime \<Rightarrow> int \<Rightarrow> block_recorder \<Rightarrow> outcome \<times> block_recorder" where
  "touch_a_crv now now2 channel b0 =
     (let b = beep_block (channel * 5) (say (PrintChannel channel) b0) in
      if channel = 0 then record_block now now2 b
      else if channel = 1 then
        (if recording b
         then stop_crv ((say (Print ''Stopping recording'') b)\<lparr> recording := False \<rparr>)
         else (Inr (), b))
      else if channel = 2 then
        (case (if recording b
               then stop_crv (say (Print ''Stopping recording before exiting'') b)
               else (Inr (), b)) of
           (Inl e, b2) \<Rightarrow> (Inl e, b2)
         | (Inr u, b2) \<Rightarrow> (Inl (SystemExit 0), say (Print ''Exiting'') (quit_block b2)))
      else if channel > 2 then
        (let b1 = say (Print ''Unexpected button touched!  How did that happen?!'') b in
         case (if recording b1
               then (case stop_crv (say (Print ''Stopping recording before exiting'') b1) of
                       (Inl e, b2) \<Rightarrow> (Inl e, b2)
                     | (Inr u, b2) \<Rightarrow> (Inr (), quit_block b2))
               else (Inr (), b1)) of
           (Inl e, b3) \<Rightarrow> (Inl e, b3)
         | (Inr u, b3) \<Rightarrow> (Inl (SystemExit 0), say (Print ''Exiting'') b3))
      else (Inr (), b))"

section \<open>The motion-gated loop (MotionDetectionSurveillance/video\_surveillance.py)\<close>

datatype State = IDLE | RECORDING | ACTIVE

text \<open>The keys of conf.json the loop reads.\<close>

record conf =
  idle_timeout :: int
  min_area :: rat
  x_min :: int
  x_max :: int
  y_min :: int
  y_max :: int
  show_video :: bool

text \<open>
  A contour as the loop sees it: its \<^verbatim>\<open>cv2.contourArea\<close>, its \<^verbatim>\<open>cv2.boundingRect\<close>
  \<open>(x, y, w, h)\<close>, and \<open>seen_at\<close>, the reading \<^verbatim>\<open>datetime.datetime.now()\<close> returns if it is
  called while this contour is being handled.
\<close>

record contour =
  contourArea :: rat
  boundingRect :: "int \<times> int \<times> int \<times> int"
  seen_at :: datetime

text \<open>
  What one pass of the \<^verbatim>\<open>for f in camera.capture_continuous(...)\<close> loop takes from
  outside: the contours found in the frame, the reading \<open>timestamp\<close>, the two readings
  \<^verbatim>\<open>VideoRecorder.start\<close> makes if it is called, and the key code
  \<^verbatim>\<open>cv2.waitKey(1) & 0xFF\<close>.
\<close>

record frame_input =
  cnts :: "contour list"
  timestamp :: datetime
  start_now :: datetime
  start_now2 :: datetime
  key :: int

text \<open>
  The variables of the loop: \<open>avg_set\<close> tells whether \<^verbatim>\<open>avg\<close> is no longer None;
  \<open>rects\<close> and \<open>text_line\<close> are the rectangles and the status line drawn on the last frame.
\<close>

record surveillance =
  state :: State
  avg_set :: bool
  last_active_time :: datetime
  VideoRecorder :: video_recorder
  rects :: "(int \<times> int \<times> int \<times> int) list"
  text_line :: string

definition in_exclusion_zone :: "conf \<Rightarrow> contour \<Rightarrow> bool" where
  "in_exclusion_zone c k =
     (case boundingRect k of
        (x, y, w, h) \<Rightarrow> x_min c \<le> x \<and> x \<le> x_max c \<and> y_min c \<le> y \<and> y \<le> y_max c)"

text \<open>
  The loop over the contours. It carries \<^verbatim>\<open>new_state\<close>, \<^verbatim>\<open>last_active_time\<close> and the
  rectangles drawn so far.
\<close>

fun scan ::
    "conf \<Rightarrow> contour list \<Rightarrow> State \<times> datetime \<times> (int \<times> int \<times> int \<times> int) list
       \<Rightarrow> State \<times> datetime \<times> (int \<times> int \<times> int \<times> int) list" where
  "scan c [] acc = acc"
| "scan c (k # ks) (ns, lat, rs) =
     (if contourArea k < min_area c then scan c ks (ns, lat, rs)
      else if \<not> in_exclusion_zone c k then
        (case boundingRect k of
           (x, y, w, h) \<Rightarrow> scan c ks (ACTIVE, seen_at k, rs @ [(x, y, x + w, y + h)]))
      else scan c ks (ns, lat, rs))"

text \<open>The candidate before the contours are looked at, from \<^verbatim>\<open>elapsed_time.seconds\<close>.\<close>

definition quiet_state :: "conf \<Rightarrow> frame_input \<Rightarrow> surveillance \<Rightarrow> State" where
  "quiet_state c i s =
     (if seconds (datetime_sub (timestamp i) (last_active_time s)) > idle_timeout c
      then IDLE else RECORDING)"

text \<open>\<^verbatim>\<open>new_state\<close> as it stands when the transition block is entered.\<close>

definition new_state :: "conf \<Rightarrow> frame_input \<Rightarrow> surveillance \<Rightarrow> State" where
  "new_state c i s = fst (scan c (cnts i) (quiet_state c i s, last_active_time s, []))"

text \<open>The block \<^verbatim>\<open>if new_state == State.ACTIVE: ... elif ... elif ...\<close>\<close>

definition transition :: "frame_input \<Rightarrow> State \<Rightarrow> surveillance \<Rightarrow> outcome \<times> surveillance" where
  "transition i ns s =
     (if ns = ACTIVE then
        (if state s = IDLE then
           (case start (start_now i) (start_now2 i) (VideoRecorder s) of
              (Inl e, r) \<Rightarrow> (Inl e, s\<lparr> VideoRecorder := r \<rparr>)
            | (Inr u, r) \<Rightarrow> (Inr (), s\<lparr> state := ACTIVE, VideoRecorder := r \<rparr>))
         else (Inr (), s\<lparr> state := ACTIVE \<rparr>))
      else if ns = RECORDING then (Inr (), s\<lparr> state := RECORDING \<rparr>)
      else if state s \<noteq> IDLE then
        (case stop (VideoRecorder s) of
           (res, r) \<Rightarrow> (res, s\<lparr> state := IDLE, VideoRecorder := r \<rparr>))
      else (Inr (), s))"

definition status_text :: "State \<Rightarrow> string" where
  "status_text st =
     (case st of IDLE \<Rightarrow> ''Idle.'' | RECORDING \<Rightarrow> ''Idle, Recording...''
      | ACTIVE \<Rightarrow> ''Active, Recording...'')"

text \<open>The end of the pass: the status line, and the \<^verbatim>\<open>q\<close> key when the video is shown.\<close>

definition show_frame :: "conf \<Rightarrow> frame_input \<Rightarrow> surveillance \<Rightarrow> outcome \<times> surveillance" where
  "show_frame c i s0 =
     (let s = s0\<lparr> text_line := status_text (state s0) \<rparr> in
      if show_video c \<and> key i = 113 then
        (case (if state s \<noteq> IDLE then stop (VideoRecorder s) else (Inr (), VideoRecorder s)) of
           (Inl e, r) \<Rightarrow> (Inl e, s\<lparr> VideoRecorder := r \<rparr>)
         | (Inr u, r) \<Rightarrow> (Inl (SystemExit 0), s\<lparr> VideoRecorder := quit r \<rparr>))
      else (Inr (), s))"

text \<open>One pass of the loop body.\<close>

definition tick :: "conf \<Rightarrow> frame_input \<Rightarrow> surveillance \<Rightarrow> outcome \<times> surveillance" where
  "tick c i s =
     (if \<not> avg_set s then (Inr (), s\<lparr> avg_set := True \<rparr>)
      else
        (case scan c (cnts i) (quiet_state c i s, last_active_time s, []) of
           (ns, lat, rs) \<Rightarrow>
             (case transition i ns (s\<lparr> last_active_time := lat, rects := rs \<rparr>) of
                (Inl e, s1) \<Rightarrow> (Inl e, s1)
              | (Inr u, s1) \<Rightarrow> show_frame c i s1)))"

text \<open>
  The loop over a finite run of frames; an exception leaving a pass ends the loop.
\<close>

fun run :: "conf \<Rightarrow> frame_input list \<Rightarrow> surveillance \<Rightarrow> outcome \<times> surveillance" where
  "run c [] s = (Inr (), s)"
| "run c (i # is) s =
     (case tick c i s of
        (Inl e, s1) \<Rightarrow> (Inl e, s1)
      | (Inr u, s1) \<Rightarrow> run c is s1)"

text \<open>
  The state when the loop is entered: the class body of \<^verbatim>\<open>VideoRecorder\<close> has run (it shows
  READY when the hat is present), \<^verbatim>\<open>set_videos_dir\<close> has stored the configured directory.
\<close>

definition initial_recorder :: "string \<Rightarrow> bool \<Rightarrow> directory \<Rightarrow> video_recorder" where
  "initial_recorder dir rh d =
     \<lparr> recording = False, annotation_timer = None, disk = d,
       calls = (if rh then [DisplayPrintStr READY, DisplayShow] else []),
       videos_dir = dir, rh_found = rh \<rparr>"

definition initial :: "string \<Rightarrow> bool \<Rightarrow> directory \<Rightarrow> surveillance" where
  "initial dir rh d =
     \<lparr> state = IDLE, avg_set = False, last_active_time = MINYEAR_start,
       VideoRecorder = initial_recorder dir rh d, rects = [], text_line = [] \<rparr>"

text \<open>
  A run in which no pass computes the candidate RECORDING while the state is IDLE.
\<close>

fun grace_only_after_motion :: "conf \<Rightarrow> frame_input list \<Rightarrow> surveillance \<Rightarrow> bool" where
  "grace_only_after_motion c [] s = True"
| "grace_only_after_motion c (i # is) s =
     (\<not> (avg_set s \<and> state s = IDLE \<and> new_state c i s = RECORDING) \<and>
      grace_only_after_motion c is (snd (tick c i s)))"

section \<open>Notions used to state the properties\<close>

text \<open>
  The free space, in gigabytes, the directory's file system would have with every entry of
  the directory removed.
\<close>

definition free_if_emptied :: "directory \<Rightarrow> rat" where
  "free_if_emptied d =
     of_nat (f_frsize d * (f_bfree d + sum_list (map snd (entries d)))) / (1024 ^ 3)"

subsection \<open>Concrete inputs\<close>

text \<open>
  Three directories on a file system with 4096-byte blocks; 10 GB are 2621440 blocks.
  \<open>roomy_dir\<close> has more than that free; \<open>tight_dir\<close> reaches it once its older file is
  gone; \<open>starved_dir\<close> never does.
\<close>

definition roomy_dir :: directory where
  "roomy_dir = \<lparr> f_frsize = 4096, f_bfree = 3000000,
                 entries = [(''2020-01-01_AM_09-00-00.h264'', 1000000)], removed = [] \<rparr>"

definition tight_dir :: directory where
  "tight_dir = \<lparr> f_frsize = 4096, f_bfree = 2000000,
                 entries = [(''2020-01-01_AM_10-00-00.h264'', 1000000),
                            (''2020-01-01_AM_09-00-00.h264'', 1000000)], removed = [] \<rparr>"

definition starved_dir :: directory where
  "starved_dir = \<lparr> f_frsize = 4096, f_bfree = 1000,
                   entries = [(''2020-01-01_AM_09-00-00.h264'', 1000)], removed = [] \<rparr>"

definition empty_dir :: directory where
  "empty_dir = \<lparr> f_frsize = 4096, f_bfree = 1000, entries = [], removed = [] \<rparr>"

definition half_past_midnight :: datetime where
  "half_past_midnight =
     \<lparr> year = 2020, month = 1, day = 1, hour = 0, minute = 30, second = 0, microsecond = 0 \<rparr>"

definition one_o_clock :: datetime where
  "one_o_clock =
     \<lparr> year = 2020, month = 1, day = 1, hour = 1, minute = 0, second = 0, microsecond = 0 \<rparr>"

definition noon :: datetime where
  "noon = \<lparr> year = 2020, month = 1, day = 1, hour = 12, minute = 0, second = 0, microsecond = 0 \<rparr>"

definition five_past_next_midnight :: datetime where
  "five_past_next_midnight =
     \<lparr> year = 2020, month = 1, day = 2, hour = 0, minute = 0, second = 5, microsecond = 0 \<rparr>"



definition example_conf :: conf where
  "example_conf = \<lparr> idle_timeout = 10, min_area = 5000, x_min = 0, x_max = 300, y_min = 0,
                    y_max = 40, show_video = False \<rparr>"

definition still_frame :: "datetime \<Rightarrow> frame_input" where
  "still_frame t = \<lparr> cnts = [], timestamp = t, start_now = t, start_now2 = t, key = 255 \<rparr>"

definition mover :: "datetime \<Rightarrow> contour" where
  "mover t = \<lparr> contourArea = 6000, boundingRect = (400, 200, 50, 80), seen_at = t \<rparr>"

definition motion_frame :: "datetime \<Rightarrow> frame_input" where
  "motion_frame t = (still_frame t)\<lparr> cnts := [mover t] \<rparr>"

definition clock_digits :: "datetime \<Rightarrow> contour" where
  "clock_digits t = \<lparr> contourArea = 6000, boundingRect = (120, 10, 30, 20), seen_at = t \<rparr>"

definition idle_block_recorder :: block_recorder where
  "idle_block_recorder =
     \<lparr> recording = False, annotation_timer = None, disk = roomy_dir,
       calls = [DisplayPrintStr ''RDY'', DisplayShow], duration = 0, recording_timer = None \<rparr>"

definition busy_block_recorder :: block_recorder where
  "busy_block_recorder =
     \<lparr> recording = True,
       annotation_timer = Some (Timer 1 UpdateTimeAnnotation False), disk = roomy_dir,
       calls = [], duration = 1370,
       recording_timer = Some (Timer 1370 ContinueRecording False) \<rparr>"

definition busy_recorder :: video_recorder where
  "busy_recorder =
     \<lparr> recording = True,
       annotation_timer = Some (Timer 1 UpdateTimeAnnotation False), disk = roomy_dir,
       calls = [], videos_dir = ''/videos/'', rh_found = True \<rparr>"

section \<open>File names and the clock\<close>

lemmas strftime_defs =
  fn_motion_def fn_block_def annotation_text_def pad4_def pad2_def digit_def fmt_p_def fmt_I_def

lemmas datetime_sub_defs =
  datetime_sub_def mk_timedelta_def toordinal_def days_before_year_def days_before_month_def
  is_leap_def

text \<open>
  C1. Claimed: a recording started earlier always gets the lexically smaller file name.
  The hour is written on the 12-hour clock, where the hour after midnight and the hour
  after noon are written 12: the recording started at 00:30:00 is named
  \<open>2020-01-01_AM_12-30-00.h264\<close>, the one started at 01:00:00 the same day
  \<open>2020-01-01_AM_01-00-00.h264\<close>, and the later name sorts first, in the motion-gated and in
  the fixed-block format.
\<close>

theorem C1_later_name_sorts_first:
  "datetime_lt half_past_midnight one_o_clock \<and>
   fn_motion half_past_midnight = ''2020-01-01_AM_12-30-00.h264'' \<and>
   fn_motion one_o_clock = ''2020-01-01_AM_01-00-00.h264'' \<and>
   fn_motion one_o_clock < fn_motion half_past_midnight \<and>
   fn_block one_o_clock < fn_block half_past_midnight"
  by (simp add: datetime_lt_def datetime_key_def strftime_defs half_past_midnight_def
      one_o_clock_def)

section \<open>The candidate state\<close>

text \<open>
  C3. Claimed: without motion the candidate is IDLE as soon as the time since the last
  motion exceeds \<open>idle_timeout\<close>, also past one day. The loop reads
  \<^verbatim>\<open>elapsed_time.seconds\<close>, the seconds field of the normalised difference, which starts
  again at 0 every 24 hours: one day and five seconds after the last motion, with a timeout
  of ten seconds and no contour, the candidate is RECORDING although 86405 seconds have
  passed.
\<close>

theorem C3_whole_days_are_dropped:
  "new_state example_conf (still_frame five_past_next_midnight)
     (s\<lparr> last_active_time := noon\<lparr> hour := 0 \<rparr> \<rparr>) = RECORDING \<and>
   total_microseconds (datetime_sub five_past_next_midnight (noon\<lparr> hour := 0 \<rparr>))
     = 86405 * 1000000 \<and>
   idle_timeout example_conf = 10"
  by (simp add: new_state_def quiet_state_def datetime_sub_defs total_microseconds_def
      example_conf_def still_frame_def five_past_next_midnight_def noon_def)

section \<open>The rotation deadline\<close>

lemma roomy_dir_enough: "ensure_space roomy_dir = (Inr (), roomy_dir)"
  by (simp add: ensure_space.simps get_free_space_GB_def FREE_SPACE_GB_def roomy_dir_def)







section \<open>A late annotation callback\<close>

text \<open>
  C8. Once \<^verbatim>\<open>VideoRecorder.stop\<close> has been called, whether it returned or raised, the flag
  \<open>recording\<close> is False, and a firing of \<^verbatim>\<open>update_time_annotation\<close> returns normally and
  leaves the whole state as it was: no call on the camera, no new timer.
\<close>

theorem C8_late_annotation_is_a_no_op:
  "recording (snd (stop r)) = False \<and>
   update_time_annotation now (snd (stop r)) = (Inr (), snd (stop r))"
  by (simp add: stop_def update_time_annotation_def Let_def split: option.splits)

section \<open>Eviction\<close>

lemma sum_list_split_filter:
  "sum_list (map f (filter P xs)) + sum_list (map f (filter (\<lambda>x. \<not> P x) xs)) = (sum_list (map f xs) :: nat)"
  by (induction xs) auto

lemma free_if_emptied_os_remove: "free_if_emptied (os_remove d n) = free_if_emptied d"
proof -
  have "sum_list (map snd (filter (\<lambda>e. fst e = n) (entries d)))
        + sum_list (map snd (filter (\<lambda>e. fst e \<noteq> n) (entries d)))
        = sum_list (map snd (entries d))"
    using sum_list_split_filter[of snd "\<lambda>e. fst e = n" "entries d"] by simp
  then show ?thesis
    by (simp add: free_if_emptied_def os_remove_def add.assoc)
qed

lemma free_le_emptied: "get_free_space_GB d \<le> free_if_emptied d"
proof -
  have "f_frsize d * f_bfree d \<le> f_frsize d * (f_bfree d + sum_list (map snd (entries d)))"
    by simp
  then have "(of_nat (f_frsize d * f_bfree d) :: rat)
             \<le> of_nat (f_frsize d * (f_bfree d + sum_list (map snd (entries d))))"
    by (rule of_nat_mono)
  then show ?thesis
    unfolding get_free_space_GB_def free_if_emptied_def by (rule divide_right_mono) simp
qed

lemma free_empty: "entries d = [] \<Longrightarrow> free_if_emptied d = get_free_space_GB d"
  by (simp add: get_free_space_GB_def free_if_emptied_def)

lemma listdir_os_remove: "listdir (os_remove d n) = filter (\<lambda>x. x \<noteq> n) (listdir d)"
  by (simp add: listdir_def os_remove_def filter_map comp_def)

lemma sort_listdir_os_remove:
  assumes "distinct (listdir d)" and "sort (listdir d) = oldest # rest"
  shows "sort (listdir (os_remove d oldest)) = rest"
proof -
  have "distinct (oldest # rest)" using assms by (metis distinct_sort)
  then have nin: "oldest \<notin> set rest" by simp
  have "sort (listdir (os_remove d oldest)) = filter (\<lambda>x. x \<noteq> oldest) (sort (listdir d))"
    by (simp add: listdir_os_remove filter_sort)
  also have "\<dots> = filter (\<lambda>x. x \<noteq> oldest) rest" using assms(2) by simp
  also have "\<dots> = rest" using nin by (auto simp: filter_id_conv)
  finally show ?thesis .
qed

lemma ensure_space_enough: "FREE_SPACE_GB \<le> get_free_space_GB d \<Longrightarrow> ensure_space d = (Inr (), d)"
  by (simp add: ensure_space.simps)

lemma ensure_space_step:
  "get_free_space_GB d < FREE_SPACE_GB \<Longrightarrow> sort (listdir d) = oldest # rest \<Longrightarrow>
   ensure_space d = ensure_space (os_remove d oldest)"
  by (subst ensure_space.simps) simp

lemma ensure_space_empty:
  "get_free_space_GB d < FREE_SPACE_GB \<Longrightarrow> entries d = [] \<Longrightarrow> ensure_space d = (Inl IndexError, d)"
  by (subst ensure_space.simps) (simp add: listdir_def)

lemma ensure_space_evicts:
  "distinct (listdir d) \<Longrightarrow> FREE_SPACE_GB \<le> free_if_emptied d \<Longrightarrow>
   \<exists>k\<le>length (entries d).
     ensure_space d = (Inr (), foldl os_remove d (take k (sort (listdir d)))) \<and>
     FREE_SPACE_GB \<le> get_free_space_GB (foldl os_remove d (take k (sort (listdir d)))) \<and>
     (\<forall>j<k. get_free_space_GB (foldl os_remove d (take j (sort (listdir d)))) < FREE_SPACE_GB)"
proof (induction d rule: ensure_space.induct)
  case (1 d)
  show ?case
  proof (cases "get_free_space_GB d < FREE_SPACE_GB")
    case False
    then have "ensure_space d = (Inr (), d)" by (simp add: ensure_space_enough)
    with False show ?thesis by (intro exI[of _ 0]) simp
  next
    case low: True
    have ne: "entries d \<noteq> []"
      using low "1.prems"(2) free_empty[of d] by auto
    then have "sort (listdir d) \<noteq> []"
      by (metis length_0_conv length_map length_sort listdir_def)
    then obtain oldest rest where srt: "sort (listdir d) = oldest # rest"
      by (cases "sort (listdir d)") auto
    let ?d1 = "os_remove d oldest"
    have rest: "sort (listdir ?d1) = rest"
      using "1.prems"(1) srt by (rule sort_listdir_os_remove)
    have dist1: "distinct (listdir ?d1)" using "1.prems"(1) by (simp add: listdir_os_remove)
    have enough1: "FREE_SPACE_GB \<le> free_if_emptied ?d1"
      using "1.prems"(2) by (simp add: free_if_emptied_os_remove)
    from "1.IH"[OF low srt dist1 enough1] rest
    obtain k where k: "k \<le> length (entries ?d1)"
      "ensure_space ?d1 = (Inr (), foldl os_remove ?d1 (take k rest))"
      "FREE_SPACE_GB \<le> get_free_space_GB (foldl os_remove ?d1 (take k rest))"
      "\<forall>j<k. get_free_space_GB (foldl os_remove ?d1 (take j rest)) < FREE_SPACE_GB"
      by auto
    have len: "length (entries ?d1) < length (entries d)"
    proof -
      have "length (listdir ?d1) = length rest" using rest by (metis length_sort)
      moreover have "length (listdir d) = Suc (length rest)" using srt by (metis length_sort length_Cons)
      ultimately show ?thesis by (simp add: listdir_def)
    qed
    have "\<forall>j<Suc k. get_free_space_GB (foldl os_remove d (take j (sort (listdir d)))) < FREE_SPACE_GB"
    proof (intro allI impI)
      fix j assume "j < Suc k"
      then show "get_free_space_GB (foldl os_remove d (take j (sort (listdir d)))) < FREE_SPACE_GB"
        using low k(4) srt by (cases j) auto
    qed
    then show ?thesis
      using k len srt ensure_space_step[OF low srt]
      by (intro exI[of _ "Suc k"]) simp
  qed
qed

lemma removed_foldl: "removed (foldl os_remove d ns) = removed d @ ns"
  by (induction ns arbitrary: d) (simp_all add: os_remove_def)

lemma ensure_space_exhausts:
  "free_if_emptied d < FREE_SPACE_GB \<Longrightarrow>
   fst (ensure_space d) = Inl IndexError \<and> entries (snd (ensure_space d)) = []"
proof (induction d rule: ensure_space.induct)
  case (1 d)
  have low: "get_free_space_GB d < FREE_SPACE_GB"
    using "1.prems" free_le_emptied[of d] by simp
  show ?case
  proof (cases "sort (listdir d)")
    case Nil
    then have "entries d = []"
      by (metis length_0_conv length_map length_sort listdir_def)
    then show ?thesis using low by (simp add: ensure_space_empty)
  next
    case (Cons oldest rest)
    have "free_if_emptied (os_remove d oldest) < FREE_SPACE_GB"
      using "1.prems" by (simp add: free_if_emptied_os_remove)
    from "1.IH"[OF low Cons this] show ?thesis
      using ensure_space_step[OF low Cons] by simp
  qed
qed


text \<open>
  C4. Let the names in the directory be distinct and let the free space reach
  \<^verbatim>\<open>FREE_SPACE_GB\<close> once every file is gone. Then \<^verbatim>\<open>ensure_space\<close> returns normally
  (the function is total: its loop ends), with at least \<^verbatim>\<open>FREE_SPACE_GB\<close> free. What it
  removed are the first \<open>k\<close> names of the sorted listing, in that order, one
  \<^verbatim>\<open>os.remove\<close> each; after each of the first \<open>j < k\<close> removals the space was still
  short, so it stops at the first moment the space suffices. With enough space on entry it
  returns the directory untouched.
\<close>

theorem C4_eviction_is_oldest_first:
  assumes "distinct (listdir d)" and "FREE_SPACE_GB \<le> free_if_emptied d"
  shows "\<exists>k\<le>length (entries d).
           ensure_space d = (Inr (), foldl os_remove d (take k (sort (listdir d)))) \<and>
           FREE_SPACE_GB \<le> get_free_space_GB (snd (ensure_space d)) \<and>
           removed (snd (ensure_space d)) = removed d @ take k (sort (listdir d)) \<and>
           (\<forall>j<k. get_free_space_GB (foldl os_remove d (take j (sort (listdir d))))
                    < FREE_SPACE_GB) \<and>
           (FREE_SPACE_GB \<le> get_free_space_GB d \<longrightarrow> ensure_space d = (Inr (), d))"
proof -
  from ensure_space_evicts[OF assms] obtain k where k: "k \<le> length (entries d)"
    "ensure_space d = (Inr (), foldl os_remove d (take k (sort (listdir d))))"
    "FREE_SPACE_GB \<le> get_free_space_GB (foldl os_remove d (take k (sort (listdir d))))"
    "\<forall>j<k. get_free_space_GB (foldl os_remove d (take j (sort (listdir d)))) < FREE_SPACE_GB"
    by blast
  have now_enough: "FREE_SPACE_GB \<le> get_free_space_GB (snd (ensure_space d))"
    using k(2,3) by simp
  have log: "removed (snd (ensure_space d)) = removed d @ take k (sort (listdir d))"
    using k(2) by (simp add: removed_foldl)
  have at_once: "FREE_SPACE_GB \<le> get_free_space_GB d \<longrightarrow> ensure_space d = (Inr (), d)"
    by (simp add: ensure_space_enough)
  from k(1,2) now_enough log k(4) at_once show ?thesis by blast
qed

lemma tight_dir_sorted:
  "sort (listdir tight_dir) = [''2020-01-01_AM_09-00-00.h264'', ''2020-01-01_AM_10-00-00.h264'']"
  by (simp add: tight_dir_def listdir_def)

theorem C4_eviction_is_oldest_first_witness:
  "distinct (listdir tight_dir) \<and> FREE_SPACE_GB \<le> free_if_emptied tight_dir \<and>
   get_free_space_GB tight_dir < FREE_SPACE_GB \<and>
   (\<exists>k\<le>2. removed (snd (ensure_space tight_dir))
            = take k [''2020-01-01_AM_09-00-00.h264'', ''2020-01-01_AM_10-00-00.h264''] \<and>
          FREE_SPACE_GB \<le> get_free_space_GB (snd (ensure_space tight_dir))) \<and>
   distinct (listdir roomy_dir) \<and> FREE_SPACE_GB \<le> free_if_emptied roomy_dir \<and>
   FREE_SPACE_GB \<le> get_free_space_GB roomy_dir \<and>
   ensure_space roomy_dir = (Inr (), roomy_dir)"
proof -
  have t1: "distinct (listdir tight_dir)" by (simp add: tight_dir_def listdir_def)
  have t2: "FREE_SPACE_GB \<le> free_if_emptied tight_dir"
    by (simp add: tight_dir_def free_if_emptied_def FREE_SPACE_GB_def)
  have t3: "get_free_space_GB tight_dir < FREE_SPACE_GB"
    by (simp add: tight_dir_def get_free_space_GB_def FREE_SPACE_GB_def)
  have r1: "distinct (listdir roomy_dir)" by (simp add: roomy_dir_def listdir_def)
  have r3: "FREE_SPACE_GB \<le> get_free_space_GB roomy_dir"
    by (simp add: roomy_dir_def get_free_space_GB_def FREE_SPACE_GB_def)
  have r2: "FREE_SPACE_GB \<le> free_if_emptied roomy_dir"
    using r3 free_le_emptied[of roomy_dir] by simp
  have rm: "removed tight_dir = []" "length (entries tight_dir) = 2"
    by (simp_all add: tight_dir_def)
  from C4_eviction_is_oldest_first [OF t1 t2]
  have "\<exists>k\<le>2. removed (snd (ensure_space tight_dir))
            = take k [''2020-01-01_AM_09-00-00.h264'', ''2020-01-01_AM_10-00-00.h264''] \<and>
          FREE_SPACE_GB \<le> get_free_space_GB (snd (ensure_space tight_dir))"
    unfolding tight_dir_sorted rm by auto
  moreover from C4_eviction_is_oldest_first [OF r1 r2]
  have "ensure_space roomy_dir = (Inr (), roomy_dir)" using r3 by blast
  ultimately show ?thesis using t1 t2 t3 r1 r2 r3 by blast
qed

text \<open>
  C6. When even an emptied directory leaves less than \<^verbatim>\<open>FREE_SPACE_GB\<close> free (in
  particular when it is empty on entry), \<^verbatim>\<open>ensure_space\<close> raises IndexError, having removed
  every file; \<^verbatim>\<open>start\<close> of either recorder lets the exception through with
  \<open>recording\<close>, the timers and the calls on the camera as they were: no file is opened.
\<close>

theorem C6_nothing_left_to_evict:
  assumes "free_if_emptied d < FREE_SPACE_GB"
  shows "fst (ensure_space d) = Inl IndexError \<and> entries (snd (ensure_space d)) = [] \<and>
         (entries d = [] \<longrightarrow> ensure_space d = (Inl IndexError, d)) \<and>
         start now now2 (r\<lparr> disk := d \<rparr>)
           = (Inl IndexError, r\<lparr> disk := snd (ensure_space d) \<rparr>) \<and>
         start_block now now2 (b\<lparr> disk := d \<rparr>)
           = (Inl IndexError, b\<lparr> disk := snd (ensure_space d) \<rparr>)"
proof -
  have low: "get_free_space_GB d < FREE_SPACE_GB"
    using assms free_le_emptied[of d] by simp
  obtain d' where e: "ensure_space d = (Inl IndexError, d')"
    using ensure_space_exhausts[OF assms] by (cases "ensure_space d") auto
  show ?thesis
    using ensure_space_exhausts[OF assms] e low
    by (auto simp: start_def start_block_def ensure_space_empty)
qed

theorem C6_nothing_left_to_evict_witness:
  "free_if_emptied empty_dir < FREE_SPACE_GB \<and> entries empty_dir = [] \<and>
   start noon noon (busy_recorder\<lparr> recording := False, disk := empty_dir \<rparr>)
     = (Inl IndexError, busy_recorder\<lparr> recording := False, disk := empty_dir \<rparr>) \<and>
   free_if_emptied starved_dir < FREE_SPACE_GB \<and>
   fst (ensure_space starved_dir) = Inl IndexError \<and>
   entries (snd (ensure_space starved_dir)) = []"
proof -
  have e: "free_if_emptied empty_dir < FREE_SPACE_GB"
    by (simp add: empty_dir_def free_if_emptied_def FREE_SPACE_GB_def)
  have s: "free_if_emptied starved_dir < FREE_SPACE_GB"
    by (simp add: starved_dir_def free_if_emptied_def FREE_SPACE_GB_def)
  have n: "entries empty_dir = []" by (simp add: empty_dir_def)
  from C6_nothing_left_to_evict [OF e, of noon noon "busy_recorder\<lparr> recording := False \<rparr>"] n
  have "start noon noon (busy_recorder\<lparr> recording := False, disk := empty_dir \<rparr>)
     = (Inl IndexError, busy_recorder\<lparr> recording := False, disk := empty_dir \<rparr>)"
    by simp
  then show ?thesis using e s n C6_nothing_left_to_evict [OF s] by blast
qed

section \<open>The exclusion zone\<close>

lemma scan_filter:
  "scan c ks acc =
   scan c (filter (\<lambda>k. \<not> contourArea k < min_area c \<and> \<not> in_exclusion_zone c k) ks) acc"
proof (induction ks arbitrary: acc)
  case Nil
  show ?case by simp
next
  case (Cons k ks)
  obtain ns lat rs where acc: "acc = (ns, lat, rs)" by (cases acc) auto
  show ?case unfolding acc using Cons.IH by (auto split: prod.splits)
qed

lemma scan_quiet:
  assumes "\<forall>k\<in>set ks. min_area c \<le> contourArea k \<longrightarrow> in_exclusion_zone c k"
  shows "scan c ks acc = acc"
proof -
  have "filter (\<lambda>k. \<not> contourArea k < min_area c \<and> \<not> in_exclusion_zone c k) ks = []"
    using assms by (auto simp: filter_empty_conv)
  then show ?thesis using scan_filter[of c ks acc] by simp
qed

lemma scan_drop_excluded:
  assumes "in_exclusion_zone c k"
  shows "scan c (ks1 @ k # ks2) acc = scan c (ks1 @ ks2) acc"
proof -
  have "filter (\<lambda>k. \<not> contourArea k < min_area c \<and> \<not> in_exclusion_zone c k) (ks1 @ k # ks2)
        = filter (\<lambda>k. \<not> contourArea k < min_area c \<and> \<not> in_exclusion_zone c k) (ks1 @ ks2)"
    using assms by simp
  then show ?thesis using scan_filter[of c "ks1 @ k # ks2" acc] scan_filter[of c "ks1 @ ks2" acc] by simp
qed

lemma transition_cnts [simp]: "transition (i\<lparr>cnts := ks\<rparr>) ns s = transition i ns s"
  by (simp add: transition_def)

lemma show_frame_cnts [simp]: "show_frame c (i\<lparr>cnts := ks\<rparr>) s = show_frame c i s"
  by (simp add: show_frame_def)

lemma quiet_state_cnts [simp]: "quiet_state c (i\<lparr>cnts := ks\<rparr>) s = quiet_state c i s"
  by (simp add: quiet_state_def)

lemma tick_cnts:
  assumes "scan c ks (quiet_state c i s, last_active_time s, [])
           = scan c ks' (quiet_state c i s, last_active_time s, [])"
  shows "tick c (i\<lparr>cnts := ks\<rparr>) s = tick c (i\<lparr>cnts := ks'\<rparr>) s"
  using assms by (auto simp: tick_def split: prod.splits sum.splits)

lemma quiet_state_not_ACTIVE: "quiet_state c i s \<noteq> ACTIVE"
  by (simp add: quiet_state_def)

lemma show_frame_Inr:
  "show_frame c i s = (Inr u, s') \<Longrightarrow> s' = s\<lparr> text_line := status_text (state s) \<rparr>"
  by (auto simp: show_frame_def Let_def split: if_splits prod.splits sum.splits)

lemma start_Inr: "start now now2 r = (Inr u, r') \<Longrightarrow> recording r'"
  by (auto simp: start_def split: prod.splits sum.splits)

lemma stop_recording: "recording (snd (stop r)) = False"
  by (simp add: stop_def Let_def split: option.splits)

lemma transition_quiet:
  assumes "ns \<noteq> ACTIVE" and "transition i ns s = (Inr u, s')"
  shows "state s' \<noteq> ACTIVE \<and> last_active_time s' = last_active_time s"
  using assms by (cases ns) (auto simp: transition_def split: if_splits prod.splits)

text \<open>
  C7. A contour whose origin lies in the exclusion zone can be taken out of the frame
  without any change to what the pass does: it does not make the candidate ACTIVE and does
  not touch \<open>last_active_time\<close>. When every contour of sufficient area lies in the zone, the
  pass is the pass on a frame with no contour at all: the candidate is not ACTIVE and, once
  the background model exists and the pass returns, the state is not ACTIVE and
  \<open>last_active_time\<close> is what it was.
\<close>

theorem C7_excluded_motion_is_no_motion:
  "(in_exclusion_zone c k \<longrightarrow>
      tick c (i\<lparr>cnts := ks1 @ k # ks2\<rparr>) s = tick c (i\<lparr>cnts := ks1 @ ks2\<rparr>) s) \<and>
   ((\<forall>k\<in>set (cnts i). min_area c \<le> contourArea k \<longrightarrow> in_exclusion_zone c k) \<longrightarrow>
      tick c i s = tick c (i\<lparr>cnts := []\<rparr>) s \<and>
      new_state c i s \<noteq> ACTIVE \<and>
      (avg_set s \<and> fst (tick c i s) = Inr () \<longrightarrow>
         state (snd (tick c i s)) \<noteq> ACTIVE \<and>
         last_active_time (snd (tick c i s)) = last_active_time s))"
proof -
  let ?quiet = "\<forall>k\<in>set (cnts i). min_area c \<le> contourArea k \<longrightarrow> in_exclusion_zone c k"
  have drop: "tick c (i\<lparr>cnts := ks1 @ k # ks2\<rparr>) s = tick c (i\<lparr>cnts := ks1 @ ks2\<rparr>) s"
    if "in_exclusion_zone c k"
    using that by (intro tick_cnts) (simp add: scan_drop_excluded)
  have same: "tick c i s = tick c (i\<lparr>cnts := []\<rparr>) s" if q: ?quiet
  proof -
    have "tick c (i\<lparr>cnts := cnts i\<rparr>) s = tick c (i\<lparr>cnts := []\<rparr>) s"
      by (intro tick_cnts) (simp add: scan_quiet[OF q])
    then show ?thesis by simp
  qed
  have cand: "new_state c i s \<noteq> ACTIVE" if q: ?quiet
    by (simp add: new_state_def scan_quiet[OF q] quiet_state_not_ACTIVE)
  have after: "state (snd (tick c i s)) \<noteq> ACTIVE \<and>
               last_active_time (snd (tick c i s)) = last_active_time s"
    if q: ?quiet and a: "avg_set s \<and> fst (tick c i s) = Inr ()"
  proof -
    obtain s' where t: "tick c i s = (Inr (), s')" using a by (cases "tick c i s") auto
    let ?s0 = "s\<lparr> last_active_time := last_active_time s, rects := [] \<rparr>"
    from t a obtain s1 where tr: "transition i (quiet_state c i s) ?s0 = (Inr (), s1)"
      and sf: "show_frame c i s1 = (Inr (), s')"
      by (auto simp: tick_def scan_quiet[OF q] split: prod.splits sum.splits)
    from transition_quiet[OF quiet_state_not_ACTIVE tr]
    have "state s1 \<noteq> ACTIVE" "last_active_time s1 = last_active_time s" by simp_all
    moreover from show_frame_Inr[OF sf]
    have "state s' = state s1" "last_active_time s' = last_active_time s1" by simp_all
    ultimately show ?thesis using t by simp
  qed
  show ?thesis using drop same cand after by blast
qed


section \<open>State and session\<close>

lemma tick_open_not_idle:
  assumes "tick c i s = (Inr u, s')" and "recording (VideoRecorder s) \<longrightarrow> state s \<noteq> IDLE"
  shows "recording (VideoRecorder s') \<longrightarrow> state s' \<noteq> IDLE"
proof (cases "avg_set s")
  case False
  then show ?thesis using assms by (auto simp: tick_def)
next
  case True
  obtain ns lat rs where sc: "scan c (cnts i) (quiet_state c i s, last_active_time s, []) = (ns, lat, rs)"
    by (metis prod_cases3)
  let ?s0 = "s\<lparr> last_active_time := lat, rects := rs \<rparr>"
  from assms(1) True sc obtain s1 where tr: "transition i ns ?s0 = (Inr (), s1)"
    and sf: "show_frame c i s1 = (Inr u, s')"
    by (auto simp: tick_def split: prod.splits sum.splits)
  have "recording (VideoRecorder s1) \<longrightarrow> state s1 \<noteq> IDLE"
    using tr assms(2) stop_recording[of "VideoRecorder s"]
    by (cases ns) (auto simp: transition_def split: if_splits prod.splits sum.splits)
  then show ?thesis using show_frame_Inr[OF sf] by simp
qed

lemma tick_idle_iff_closed:
  assumes "tick c i s = (Inr u, s')"
    and "\<not> (avg_set s \<and> state s = IDLE \<and> new_state c i s = RECORDING)"
    and "(state s \<noteq> IDLE) = recording (VideoRecorder s)"
  shows "(state s' \<noteq> IDLE) = recording (VideoRecorder s')"
proof (cases "avg_set s")
  case False
  then show ?thesis using assms by (auto simp: tick_def)
next
  case True
  obtain ns lat rs where sc: "scan c (cnts i) (quiet_state c i s, last_active_time s, []) = (ns, lat, rs)"
    by (metis prod_cases3)
  let ?s0 = "s\<lparr> last_active_time := lat, rects := rs \<rparr>"
  have ns: "new_state c i s = ns" by (simp add: new_state_def sc)
  from assms(1) True sc obtain s1 where tr: "transition i ns ?s0 = (Inr (), s1)"
    and sf: "show_frame c i s1 = (Inr u, s')"
    by (auto simp: tick_def split: prod.splits sum.splits)
  have "(state s1 \<noteq> IDLE) = recording (VideoRecorder s1)"
    using tr assms(2,3) True ns stop_recording[of "VideoRecorder s"]
    by (cases ns) (auto simp: transition_def split: if_splits prod.splits sum.splits dest: start_Inr)
  then show ?thesis using show_frame_Inr[OF sf] by simp
qed

lemma run_open_not_idle:
  "run c is s = (Inr u, s') \<Longrightarrow> (recording (VideoRecorder s) \<longrightarrow> state s \<noteq> IDLE) \<Longrightarrow>
   recording (VideoRecorder s') \<longrightarrow> state s' \<noteq> IDLE"
proof (induction "is" arbitrary: s)
  case Nil
  then show ?case by simp
next
  case (Cons i "is")
  from Cons.prems(1) obtain s1 where t: "tick c i s = (Inr (), s1)" and r: "run c is s1 = (Inr u, s')"
    by (auto split: prod.splits sum.splits)
  from Cons.IH[OF r tick_open_not_idle[OF t Cons.prems(2)]] show ?case .
qed

lemma run_idle_iff_closed:
  "run c is s = (Inr u, s') \<Longrightarrow> grace_only_after_motion c is s \<Longrightarrow>
   (state s \<noteq> IDLE) = recording (VideoRecorder s) \<Longrightarrow>
   (state s' \<noteq> IDLE) = recording (VideoRecorder s')"
proof (induction "is" arbitrary: s)
  case Nil
  then show ?case by simp
next
  case (Cons i "is")
  from Cons.prems(1) obtain s1 where t: "tick c i s = (Inr (), s1)" and r: "run c is s1 = (Inr u, s')"
    by (auto split: prod.splits sum.splits)
  have g: "\<not> (avg_set s \<and> state s = IDLE \<and> new_state c i s = RECORDING)"
    and g1: "grace_only_after_motion c is s1"
    using Cons.prems(2) t by simp_all
  from Cons.IH[OF r g1 tick_idle_iff_closed[OF t g Cons.prems(3)]] show ?case .
qed

lemma first_tick:
  "tick example_conf (still_frame noon) (initial ''/videos/'' False roomy_dir)
   = (Inr (), (initial ''/videos/'' False roomy_dir)\<lparr> avg_set := True \<rparr>)"
  by (simp add: tick_def initial_def)

lemma noon_since_MINYEAR: "seconds (datetime_sub noon MINYEAR_start) = 43200"
  by (simp add: datetime_sub_defs noon_def MINYEAR_start_def)

lemma motion_new_state:
  "new_state example_conf (motion_frame noon) ((initial ''/videos/'' False roomy_dir)\<lparr> avg_set := True \<rparr>) = ACTIVE"
  by (simp add: new_state_def motion_frame_def still_frame_def mover_def example_conf_def
      in_exclusion_zone_def)

lemma second_tick:
  "fst (tick example_conf (motion_frame noon) ((initial ''/videos/'' False roomy_dir)\<lparr> avg_set := True \<rparr>)) = Inr () \<and>
   state (snd (tick example_conf (motion_frame noon) ((initial ''/videos/'' False roomy_dir)\<lparr> avg_set := True \<rparr>))) = ACTIVE \<and>
   recording (VideoRecorder (snd (tick example_conf (motion_frame noon) ((initial ''/videos/'' False roomy_dir)\<lparr> avg_set := True \<rparr>))))"
  by (simp add: tick_def motion_frame_def still_frame_def mover_def example_conf_def
      in_exclusion_zone_def quiet_state_def noon_since_MINYEAR initial_def initial_recorder_def
      transition_def start_def roomy_dir_enough show_frame_def)

lemma example_run:
  "fst (run example_conf [still_frame noon, motion_frame noon] (initial ''/videos/'' False roomy_dir)) = Inr () \<and>
   state (snd (run example_conf [still_frame noon, motion_frame noon] (initial ''/videos/'' False roomy_dir))) = ACTIVE \<and>
   recording (VideoRecorder (snd (run example_conf [still_frame noon, motion_frame noon] (initial ''/videos/'' False roomy_dir))))"
proof -
  obtain s2 where t: "tick example_conf (motion_frame noon)
      ((initial ''/videos/'' False roomy_dir)\<lparr> avg_set := True \<rparr>) = (Inr (), s2)"
    using second_tick by (metis prod.collapse)
  show ?thesis using second_tick by (simp add: first_tick t)
qed

lemma example_grace:
  "grace_only_after_motion example_conf [still_frame noon, motion_frame noon] (initial ''/videos/'' False roomy_dir)"
  by (simp add: first_tick motion_new_state) (simp add: initial_def)

text \<open>
  C2, as claimed: at every tick boundary the state is RECORDING exactly when a session is
  open. After a first frame that sets the background model and a second one with motion, the
  session is open and the state is ACTIVE.
\<close>

theorem C2_active_is_not_recording_counterexample:
  "fst (run example_conf [still_frame noon, motion_frame noon] (initial ''/videos/'' False roomy_dir)) = Inr () \<and>
   \<not> (state (snd (run example_conf [still_frame noon, motion_frame noon] (initial ''/videos/'' False roomy_dir))) = RECORDING
      \<longleftrightarrow> recording (VideoRecorder (snd (run example_conf [still_frame noon, motion_frame noon] (initial ''/videos/'' False roomy_dir)))))"
  using example_run by simp

text \<open>
  C2, amended. At every tick boundary reached from the initial state, an open session
  implies that the state is ACTIVE or RECORDING. In a run in which no pass computes the
  candidate RECORDING while the state is IDLE, the converse holds too: the state is ACTIVE
  or RECORDING exactly when a session is open.
\<close>

theorem C2_open_session_and_state:
  assumes "run c is (initial dir rh d) = (Inr (), s)"
  shows "(recording (VideoRecorder s) \<longrightarrow> state s = ACTIVE \<or> state s = RECORDING) \<and>
         (grace_only_after_motion c is (initial dir rh d) \<longrightarrow>
            (state s = ACTIVE \<or> state s = RECORDING) = recording (VideoRecorder s))"
proof -
  have i1: "recording (VideoRecorder (initial dir rh d)) \<longrightarrow> state (initial dir rh d) \<noteq> IDLE"
    by (simp add: initial_def initial_recorder_def)
  have i2: "(state (initial dir rh d) \<noteq> IDLE) = recording (VideoRecorder (initial dir rh d))"
    by (simp add: initial_def initial_recorder_def)
  have ne: "(state s \<noteq> IDLE) = (state s = ACTIVE \<or> state s = RECORDING)"
    by (cases "state s") simp_all
  show ?thesis
    using run_open_not_idle[OF assms i1] run_idle_iff_closed[OF assms _ i2] ne by blast
qed


theorem C2_open_session_and_state_witness:
  "run example_conf [still_frame noon, motion_frame noon] (initial ''/videos/'' False roomy_dir)
     = (Inr (), snd (run example_conf [still_frame noon, motion_frame noon] (initial ''/videos/'' False roomy_dir))) \<and>
   grace_only_after_motion example_conf [still_frame noon, motion_frame noon] (initial ''/videos/'' False roomy_dir) \<and>
   recording (VideoRecorder (snd (run example_conf [still_frame noon, motion_frame noon] (initial ''/videos/'' False roomy_dir)))) \<and>
   state (snd (run example_conf [still_frame noon, motion_frame noon] (initial ''/videos/'' False roomy_dir))) = ACTIVE"
proof -
  let ?r = "run example_conf [still_frame noon, motion_frame noon] (initial ''/videos/'' False roomy_dir)"
  have r: "?r = (Inr (), snd ?r)" using example_run by (cases ?r) simp
  have nr: "state (snd ?r) \<noteq> RECORDING" using example_run by simp
  from C2_open_session_and_state [OF r] example_grace example_run nr r
  show ?thesis by blast
qed

lemma quiet_first_tick:
  "tick example_conf ((still_frame noon)\<lparr> cnts := [clock_digits noon] \<rparr>)
     ((initial ''/videos/'' False roomy_dir)\<lparr> avg_set := True \<rparr>)
   = (Inr (), (initial ''/videos/'' False roomy_dir)
                \<lparr> avg_set := True, text_line := ''Idle.'' \<rparr>)"
  by (simp add: tick_def still_frame_def clock_digits_def example_conf_def
      in_exclusion_zone_def quiet_state_def noon_since_MINYEAR initial_def transition_def
      show_frame_def status_text_def)

theorem C7_excluded_motion_is_no_motion_witness:
  "in_exclusion_zone example_conf (clock_digits noon) \<and>
   min_area example_conf \<le> contourArea (clock_digits noon) \<and>
   cnts ((still_frame noon)\<lparr> cnts := [clock_digits noon] \<rparr>) = [clock_digits noon] \<and>
   avg_set ((initial ''/videos/'' False roomy_dir)\<lparr> avg_set := True \<rparr>) \<and>
   tick example_conf ((still_frame noon)\<lparr> cnts := [clock_digits noon] \<rparr>)
       ((initial ''/videos/'' False roomy_dir)\<lparr> avg_set := True \<rparr>)
     = tick example_conf (still_frame noon)
         ((initial ''/videos/'' False roomy_dir)\<lparr> avg_set := True \<rparr>) \<and>
   state (snd (tick example_conf ((still_frame noon)\<lparr> cnts := [clock_digits noon] \<rparr>)
                 ((initial ''/videos/'' False roomy_dir)\<lparr> avg_set := True \<rparr>))) \<noteq> ACTIVE \<and>
   last_active_time
       (snd (tick example_conf ((still_frame noon)\<lparr> cnts := [clock_digits noon] \<rparr>)
                ((initial ''/videos/'' False roomy_dir)\<lparr> avg_set := True \<rparr>)))
     = MINYEAR_start"
proof -
  let ?i = "(still_frame noon)\<lparr> cnts := [clock_digits noon] \<rparr>"
  let ?s = "(initial ''/videos/'' False roomy_dir)\<lparr> avg_set := True \<rparr>"
  have z: "in_exclusion_zone example_conf (clock_digits noon)"
    by (simp add: in_exclusion_zone_def example_conf_def clock_digits_def)
  have q: "\<forall>k\<in>set (cnts ?i). min_area example_conf \<le> contourArea k \<longrightarrow>
             in_exclusion_zone example_conf k"
    using z by simp
  have a: "avg_set ?s \<and> fst (tick example_conf ?i ?s) = Inr ()"
    by (simp add: quiet_first_tick)
  have e: "?i\<lparr> cnts := [] \<rparr> = still_frame noon" by (simp add: still_frame_def)
  have l: "last_active_time ?s = MINYEAR_start" by (simp add: initial_def)
  from C7_excluded_motion_is_no_motion
         [where c = example_conf and k = "clock_digits noon" and i = ?i
            and ?ks1.0 = "[]" and ?ks2.0 = "[]" and s = ?s] q a
  have f: "tick example_conf ?i ?s = tick example_conf (?i\<lparr> cnts := [] \<rparr>) ?s"
    "state (snd (tick example_conf ?i ?s)) \<noteq> ACTIVE"
    "last_active_time (snd (tick example_conf ?i ?s)) = last_active_time ?s"
    by blast+
  have big: "min_area example_conf \<le> contourArea (clock_digits noon)"
    by (simp add: example_conf_def clock_digits_def)
  have only: "cnts ?i = [clock_digits noon]" by simp
  have "avg_set ?s" using a by blast
  with z big only f show ?thesis unfolding e l by blast
qed

section \<open>The button handlers\<close>

lemmas handler_defs =
  touch_a_def touch_a_block_def touch_a_crv_def say_def beep_def beep_block_def quit_def
  quit_block_def stop_def stop_block_def stop_crv_def cancel_timers_def

text \<open>
  C9, as claimed: a channel above 2 ends the handler the way the quit channel does. In
  video\_recorder.py the quit channel ends with \<^verbatim>\<open>sys.exit(0)\<close>, a channel above 2 with
  \<^verbatim>\<open>raise ValueError\<close>.
\<close>

theorem C9_unexpected_channel_raises_counterexample:
  "fst (touch_a 3 busy_recorder) = Inl (ValueError ''Bad value for channel.  No such button!'') \<and>
   fst (touch_a 2 busy_recorder) = Inl (SystemExit 0)"
  by (simp add: handler_defs busy_recorder_def Let_def)

text \<open>
  C9, amended. For a channel above 2, the handler of video\_recorder.py prints the report,
  stops the session if one is recording, clears the display when the hat is present and
  prints \<open>Exiting\<close>, which are the steps of its quit channel after the beep, and then raises
  ValueError where the quit channel raises SystemExit. The handler of cameraRecordVideo.py
  ends with \<^verbatim>\<open>sys.exit(0)\<close> as its quit channel does; when a session is recording it
  stops it and clears the display by the same calls as the quit channel.
\<close>

theorem C9_unexpected_channel_shuts_down:
  assumes "2 < channel"
  shows
    "((recording r \<longrightarrow> annotation_timer r \<noteq> None) \<longrightarrow>
        fst (touch_a channel r) = Inl (ValueError ''Bad value for channel.  No such button!'') \<and>
        \<not> recording (snd (touch_a channel r)) \<and>
        calls (snd (touch_a channel r)) =
          calls r @
          [PrintChannel channel, Print ''Unexpected button touched!  How did that happen?!''] @
          (if recording r
           then [StopRecording, TimerCancel UpdateTimeAnnotation] @
                (if rh_found r then [DisplayPrintStr READY, DisplayShow] else [])
           else []) @
          (if rh_found r then [DisplayClear, DisplayShow] else []) @ [Print ''Exiting''] \<and>
        fst (touch_a 2 r) = Inl (SystemExit 0) \<and>
        calls (snd (touch_a 2 r)) =
          calls r @
          [PrintChannel 2] @ (if rh_found r then [BuzzerMidiNote 70] else []) @
          (if recording r
           then [StopRecording, TimerCancel UpdateTimeAnnotation] @
                (if rh_found r then [DisplayPrintStr READY, DisplayShow] else [])
           else []) @
          (if rh_found r then [DisplayClear, DisplayShow] else []) @ [Print ''Exiting'']) \<and>
     (recording b \<and> annotation_timer b \<noteq> None \<and> recording_timer b \<noteq> None \<longrightarrow>
        fst (touch_a_crv now now2 channel b) = Inl (SystemExit 0) \<and>
        calls (snd (touch_a_crv now now2 channel b)) =
          calls b @
          [PrintChannel channel, BuzzerMidiNote (60 + channel * 5),
           Print ''Unexpected button touched!  How did that happen?!'',
           Print ''Stopping recording before exiting'',
           StopRecording, StopPreview, DisplayPrintStr ''RDY'', DisplayShow,
           TimerCancel UpdateTimeAnnotation, TimerCancel ContinueRecording,
           DisplayClear, DisplayShow, Print ''Exiting''] \<and>
        fst (touch_a_crv now now2 2 b) = Inl (SystemExit 0) \<and>
        calls (snd (touch_a_crv now now2 2 b)) =
          calls b @
          [PrintChannel 2, BuzzerMidiNote 70,
           Print ''Stopping recording before exiting'',
           StopRecording, StopPreview, DisplayPrintStr ''RDY'', DisplayShow,
           TimerCancel UpdateTimeAnnotation, TimerCancel ContinueRecording,
           DisplayClear, DisplayShow, Print ''Exiting'']) \<and>
     (\<not> recording b \<longrightarrow> fst (touch_a_crv now now2 channel b) = Inl (SystemExit 0))"
proof -
  have c: "channel \<noteq> 2" "channel \<noteq> 0" "channel \<noteq> 1" using assms by simp_all
  show ?thesis
    using assms c by (auto simp: handler_defs Let_def split: option.splits)
qed

theorem C9_unexpected_channel_shuts_down_witness:
  "(2::int) < 3 \<and> recording busy_recorder \<and> annotation_timer busy_recorder \<noteq> None \<and>
   fst (touch_a 3 busy_recorder) = Inl (ValueError ''Bad value for channel.  No such button!'') \<and>
   \<not> recording (snd (touch_a 3 busy_recorder)) \<and>
   recording busy_block_recorder \<and> annotation_timer busy_block_recorder \<noteq> None \<and>
   recording_timer busy_block_recorder \<noteq> None \<and>
   fst (touch_a_crv noon noon 3 busy_block_recorder) = Inl (SystemExit 0) \<and>
   \<not> recording idle_block_recorder \<and>
   fst (touch_a_crv noon noon 3 idle_block_recorder) = Inl (SystemExit 0)"
proof -
  have h: "(2::int) < 3" by simp
  have r: "recording busy_recorder" "annotation_timer busy_recorder \<noteq> None"
    by (simp_all add: busy_recorder_def)
  have b: "recording busy_block_recorder" "annotation_timer busy_block_recorder \<noteq> None"
    "recording_timer busy_block_recorder \<noteq> None"
    by (simp_all add: busy_block_recorder_def)
  have i: "\<not> recording idle_block_recorder" by (simp add: idle_block_recorder_def)
  from C9_unexpected_channel_shuts_down [OF h, of busy_recorder busy_block_recorder noon noon]
       C9_unexpected_channel_shuts_down [OF h, of busy_recorder idle_block_recorder noon noon]
       r b i h
  show ?thesis by blast
qed

text \<open>
  C10. In the fixed-block programs a press of button A runs \<^verbatim>\<open>record\<close> whatever the flag
  \<open>recording\<close> says: with space on the disk the result is the same for a set and a cleared
  flag, and the camera is told to start a recording again. A press of button B while
  nothing is recording only prints the channel and beeps.
\<close>

theorem C10_start_command_is_unguarded:
  "(fst (ensure_space (disk b)) = Inr () \<longrightarrow>
      touch_a_block now now2 0 (b\<lparr> recording := True \<rparr>)
        = touch_a_block now now2 0 (b\<lparr> recording := False \<rparr>) \<and>
      fst (touch_a_block now now2 0 b) = Inr () \<and>
      calls (snd (touch_a_block now now2 0 b)) =
        calls b @
        [PrintChannel 0, BuzzerMidiNote 60, StartPreview, AnnotateBackground ''black'',
         AnnotateText (annotation_text now2), StartRecording (VIDEOS_DIRECTORY @ fn_block now),
         TimerStart ANNOTATION_TIMER_INTERVAL_SEC UpdateTimeAnnotation,
         DisplayPrintStr ''REC'', DisplayShow,
         TimerStart (duration (snd (touch_a_block now now2 0 b))) ContinueRecording] \<and>
      touch_a_crv now now2 0 b = touch_a_block now now2 0 b) \<and>
   (\<not> recording b \<longrightarrow>
      touch_a_block now now2 1 b
        = (Inr (), b\<lparr> calls := calls b @ [PrintChannel 1, BuzzerMidiNote 65] \<rparr>) \<and>
      touch_a_crv now now2 1 b
        = (Inr (), b\<lparr> calls := calls b @ [PrintChannel 1, BuzzerMidiNote 65] \<rparr>))"
proof -
  have press0: "touch_a_block now now2 0 (b\<lparr> recording := True \<rparr>)
        = touch_a_block now now2 0 (b\<lparr> recording := False \<rparr>) \<and>
      fst (touch_a_block now now2 0 b) = Inr () \<and>
      calls (snd (touch_a_block now now2 0 b)) =
        calls b @
        [PrintChannel 0, BuzzerMidiNote 60, StartPreview, AnnotateBackground ''black'',
         AnnotateText (annotation_text now2), StartRecording (VIDEOS_DIRECTORY @ fn_block now),
         TimerStart ANNOTATION_TIMER_INTERVAL_SEC UpdateTimeAnnotation,
         DisplayPrintStr ''REC'', DisplayShow,
         TimerStart (duration (snd (touch_a_block now now2 0 b))) ContinueRecording] \<and>
      touch_a_crv now now2 0 b = touch_a_block now now2 0 b"
    if ok: "fst (ensure_space (disk b)) = Inr ()"
  proof -
    obtain d where d: "ensure_space (disk b) = (Inr (), d)"
      using ok by (cases "ensure_space (disk b)") auto
    show ?thesis
      by (simp add: handler_defs record_block_def start_block_def d Let_def)
  qed
  have press1: "touch_a_block now now2 1 b
        = (Inr (), b\<lparr> calls := calls b @ [PrintChannel 1, BuzzerMidiNote 65] \<rparr>) \<and>
      touch_a_crv now now2 1 b
        = (Inr (), b\<lparr> calls := calls b @ [PrintChannel 1, BuzzerMidiNote 65] \<rparr>)"
    if "\<not> recording b"
    using that by (simp add: handler_defs Let_def)
  show ?thesis using press0 press1 by blast
qed

theorem C10_start_command_is_unguarded_witness:
  "recording busy_block_recorder \<and> fst (ensure_space (disk busy_block_recorder)) = Inr () \<and>
   fst (touch_a_block noon noon 0 busy_block_recorder) = Inr () \<and>
   calls (snd (touch_a_block noon noon 0 busy_block_recorder)) =
     [PrintChannel 0, BuzzerMidiNote 60, StartPreview, AnnotateBackground ''black'',
      AnnotateText ''2020-01-01 12:00:00'',
      StartRecording ''/media/pi/My Passport/SurveillanceVideos/2020-01-01_PM_12:00:00.h264'',
      TimerStart 1 UpdateTimeAnnotation, DisplayPrintStr ''REC'', DisplayShow,
      TimerStart 3600 ContinueRecording] \<and>
   \<not> recording idle_block_recorder \<and>
   fst (touch_a_block noon noon 1 idle_block_recorder) = Inr () \<and>
   calls (snd (touch_a_block noon noon 1 idle_block_recorder)) =
     calls idle_block_recorder @ [PrintChannel 1, BuzzerMidiNote 65]"
proof -
  have e: "fst (ensure_space (disk busy_block_recorder)) = Inr ()"
    by (simp add: busy_block_recorder_def roomy_dir_enough)
  have r: "recording busy_block_recorder" by (simp add: busy_block_recorder_def)
  have i: "\<not> recording idle_block_recorder" by (simp add: idle_block_recorder_def)
  have c: "calls busy_block_recorder = []" by (simp add: busy_block_recorder_def)
  have t: "annotation_text noon = ''2020-01-01 12:00:00''"
    "VIDEOS_DIRECTORY @ fn_block noon
       = ''/media/pi/My Passport/SurveillanceVideos/2020-01-01_PM_12:00:00.h264''"
    by (simp_all add: strftime_defs noon_def VIDEOS_DIRECTORY_def)
  have du: "duration (snd (touch_a_block noon noon 0 busy_block_recorder)) = 3600"
    by (simp add: handler_defs record_block_def start_block_def busy_block_recorder_def
        roomy_dir_enough Let_def noon_def)
  from C10_start_command_is_unguarded [of busy_block_recorder noon noon] e r
  have "fst (touch_a_block noon noon 0 busy_block_recorder) = Inr () \<and>
        calls (snd (touch_a_block noon noon 0 busy_block_recorder)) =
     [PrintChannel 0, BuzzerMidiNote 60, StartPreview, AnnotateBackground ''black'',
      AnnotateText ''2020-01-01 12:00:00'',
      StartRecording ''/media/pi/My Passport/SurveillanceVideos/2020-01-01_PM_12:00:00.h264'',
      TimerStart 1 UpdateTimeAnnotation, DisplayPrintStr ''REC'', DisplayShow,
      TimerStart 3600 ContinueRecording]"
    by (simp add: c t du ANNOTATION_TIMER_INTERVAL_SEC_def)
  moreover from C10_start_command_is_unguarded [of idle_block_recorder noon noon] i
  have "fst (touch_a_block noon noon 1 idle_block_recorder) = Inr () \<and>
   calls (snd (touch_a_block noon noon 1 idle_block_recorder)) =
     calls idle_block_recorder @ [PrintChannel 1, BuzzerMidiNote 65]"
    by simp
  ultimately show ?thesis using e r i by blast
qed

end
